theory Spec2Isabelle
  imports Main "HOL-Library.Sublist"
begin

section \<open>The prepare-commit-msg hook (scripts/prepare-commit-msg.py)\<close>

text \<open>
  The hook is one linear pipeline: a gate on the commit source, the staged diff read
  through a subprocess, a prompt built from a fixed template, a remote call that is
  retried on transient errors, and string post-processing of the answer.

  A Python \<open>str\<close> is modelled as a HOL \<open>string\<close>; a \<open>char\<close> stands for the code
  point of the same number, so the strings covered are those over U+0000 .. U+00FF.
  Every effect of the script (the subprocess, the remote call, \<open>time.sleep\<close>, the two
  output streams and the file write) is an event of a trace, in the order the script
  performs them.
\<close>

subsection \<open>Python string primitives\<close>

text \<open>
  \<open>str.isspace\<close> on one character, which is what \<open>strip\<close> and \<open>rstrip\<close> without an
  argument remove: U+0009 .. U+000D, U+001C .. U+0020, U+0085 and U+00A0 in this range.
\<close>

definition py_isspace :: "char \<Rightarrow> bool" where
  "py_isspace c =
     (let n = (of_char c :: nat)
      in (9 \<le> n \<and> n \<le> 13) \<or> (28 \<le> n \<and> n \<le> 32) \<or> n = 133 \<or> n = 160)"

definition lstrip :: "string \<Rightarrow> string" where
  "lstrip s = dropWhile py_isspace s"

definition rstrip :: "string \<Rightarrow> string" where
  "rstrip s = rev (dropWhile py_isspace (rev s))"

definition strip :: "string \<Rightarrow> string" where
  "strip s = rstrip (lstrip s)"

text \<open>\<open>t.startswith(p)\<close>, \<open>t.endswith(p)\<close> and \<open>p in t\<close> on strings.\<close>

definition startswith :: "string \<Rightarrow> string \<Rightarrow> bool" where
  "startswith t p = prefix p t"

definition endswith :: "string \<Rightarrow> string \<Rightarrow> bool" where
  "endswith t p = suffix p t"

definition py_in :: "string \<Rightarrow> string \<Rightarrow> bool" where
  "py_in p t = sublist p t"

text \<open>
  The slice \<open>t[a:-b]\<close> for literal \<open>a\<close>, \<open>b\<close>: the end index is \<open>len(t) - b\<close>, clipped
  at 0, and the slice is empty when the start is not before the end.
\<close>

definition slice_inner :: "nat \<Rightarrow> nat \<Rightarrow> string \<Rightarrow> string" where
  "slice_inner a b t = drop a (take (length t - b) t)"

text \<open>
  \<open>str.lower\<close>: in this range the cased letters are A .. Z and U+00C0 .. U+00DE without
  U+00D7, each 32 below its lower-case letter.
\<close>

definition lower_char :: "char \<Rightarrow> char" where
  "lower_char c =
     (let n = (of_char c :: nat)
      in if (65 \<le> n \<and> n \<le> 90) \<or> (192 \<le> n \<and> n \<le> 222 \<and> n \<noteq> 215)
         then char_of (n + 32) else c)"

definition lower :: "string \<Rightarrow> string" where
  "lower s = map lower_char s"

text \<open>
  \<open>s.split(sep)\<close> with a one-character separator: the pieces between the separators,
  empty pieces kept, never an empty list. \<open>sep.join(ws)\<close>, and \<open>ws[:-1]\<close> is \<open>butlast\<close>.
\<close>

fun split :: "char \<Rightarrow> string \<Rightarrow> string list" where
  "split sep [] = [[]]"
| "split sep (c # cs) =
     (if c = sep then [] # split sep cs
      else (case split sep cs of [] \<Rightarrow> [[c]] | w # ws \<Rightarrow> (c # w) # ws))"

fun join :: "string \<Rightarrow> string list \<Rightarrow> string" where
  "join sep [] = []"
| "join sep [w] = w"
| "join sep (w # ws) = w @ sep @ join sep ws"

text \<open>
  \<open>str.splitlines()\<close>: a line ends at a line boundary (LF, CR, CR LF, VT, FF, FS, GS,
  RS, NEL in this range); the boundary is dropped, and text after the last boundary is
  a line only when it is not empty.
\<close>

definition is_linebreak :: "char \<Rightarrow> bool" where
  "is_linebreak c =
     (let n = (of_char c :: nat) in (10 \<le> n \<and> n \<le> 13) \<or> (28 \<le> n \<and> n \<le> 30) \<or> n = 133)"

fun skip_break :: "string \<Rightarrow> string" where
  "skip_break [] = []"
| "skip_break [c] = []"
| "skip_break (c # d # cs) =
     (if c = CHR 0x0D \<and> d = CHR 0x0A then cs else d # cs)"

function splitlines :: "string \<Rightarrow> string list" where
  "splitlines s =
     (if s = [] then []
      else takeWhile (\<lambda>c. \<not> is_linebreak c) s
           # splitlines (skip_break (dropWhile (\<lambda>c. \<not> is_linebreak c) s)))"
  by pat_completeness auto

termination splitlines
proof (relation "measure length")
  show "wf (measure length)" by simp
next
  fix s :: string
  assume ne: "s \<noteq> []"
  let ?r = "dropWhile (\<lambda>c. \<not> is_linebreak c) s"
  have "length (skip_break r) \<le> length r - 1" for r
    by (induction r rule: skip_break.induct) auto
  then have "length (skip_break ?r) \<le> length ?r - 1" .
  moreover have "length ?r \<le> length s" by (rule length_dropWhile_le)
  moreover have "0 < length s" using ne by simp
  ultimately have "length (skip_break ?r) < length s" by arith
  then show "(skip_break ?r, s) \<in> measure length" by simp
qed

subsection \<open>Constants\<close>

definition MAX_SUBJECT_LENGTH :: nat where
  "MAX_SUBJECT_LENGTH = 50"

definition MODEL_NAME :: string where
  "MODEL_NAME = ''gemini-2.5-flash''"

subsection \<open>The response sanitizer on strings\<close>

text \<open>
  \<open>sanitize_generated_text\<close>: trim, then at most one layer of triple backticks, one of
  single backticks and one of quotes, in that order, trimming after each.
\<close>

definition sanitize_generated_text :: "string \<Rightarrow> string" where
  "sanitize_generated_text text =
     (if text = [] then []
      else
        let t = strip text;
            t = (if startswith t ''```'' \<and> endswith t ''```''
                 then strip (slice_inner 3 3 t) else t);
            t = (if startswith t ''`'' \<and> endswith t ''`''
                 then strip (slice_inner 1 1 t) else t);
            t = (if (startswith t [CHR 0x22] \<and> endswith t [CHR 0x22])
                    \<or> (startswith t [CHR 0x27] \<and> endswith t [CHR 0x27])
                 then strip (slice_inner 1 1 t) else t)
        in t)"

text \<open>
  The subject cap of \<open>run_hook\<close>: a subject longer than the limit is cut at the limit
  and, when the cut piece has a space, cut again before its last space and trimmed on
  the right.
\<close>

definition truncate_subject :: "string \<Rightarrow> string" where
  "truncate_subject subject =
     (if length subject > MAX_SUBJECT_LENGTH then
        let truncated = take MAX_SUBJECT_LENGTH subject
        in if CHR '' '' \<in> set truncated
           then rstrip (join '' '' (butlast (split (CHR '' '') truncated)))
           else truncated
      else subject)"

subsection \<open>Values of unknown shape\<close>

text \<open>
  The remote response is navigated with \<open>hasattr\<close>, \<open>isinstance\<close>, truth tests and
  indexing, so its parts are values of a small universe: \<open>None\<close>, strings, lists,
  dictionaries with string keys, and objects given by their attributes. The response
  itself is an object together with what \<open>str()\<close> gives on it (\<open>None\<close> when \<open>str()\<close>
  raises).
\<close>

datatype pyval =
    PNone
  | PStr string
  | PList "pyval list"
  | PDict "(string \<times> pyval) list"
  | PObj "(string \<times> pyval) list"

record response =
  resp_attrs :: "(string \<times> pyval) list"
  resp_str :: "string option"

datatype py_exn = ValueError string | RuntimeError string | AttributeError string

fun truthy :: "pyval \<Rightarrow> bool" where
  "truthy PNone = False"
| "truthy (PStr s) = (s \<noteq> [])"
| "truthy (PList xs) = (xs \<noteq> [])"
| "truthy (PDict kvs) = (kvs \<noteq> [])"
| "truthy (PObj attrs) = True"

text \<open>\<open>getattr\<close> on a value: only objects carry the attributes the script asks for.\<close>

fun getattr :: "pyval \<Rightarrow> string \<Rightarrow> pyval option" where
  "getattr (PObj attrs) name = map_of attrs name"
| "getattr v name = None"

text \<open>
  \<open>v[0]\<close>; \<open>None\<close> stands for the exception Python raises (IndexError on an empty
  sequence, KeyError on a dictionary whose keys are strings, TypeError otherwise).
\<close>

fun index0 :: "pyval \<Rightarrow> pyval option" where
  "index0 (PList (x # xs)) = Some x"
| "index0 (PStr (c # cs)) = Some (PStr [c])"
| "index0 v = None"

text \<open>
  An element of a content or output list: a dictionary with a \<open>text\<close> key gives that
  entry, a string gives itself, anything else falls through (\<open>None\<close>).
\<close>

fun element_text :: "pyval \<Rightarrow> pyval option" where
  "element_text (PDict kvs) = map_of kvs ''text''"
| "element_text (PStr s) = Some (PStr s)"
| "element_text v = None"

fun content_text :: "pyval \<Rightarrow> pyval option" where
  "content_text (PList (first # xs)) = element_text first"
| "content_text (PStr s) = Some (PStr s)"
| "content_text v = None"

fun output_list_text :: "pyval \<Rightarrow> pyval option" where
  "output_list_text (PList (el # xs)) = element_text el"
| "output_list_text v = None"

definition candidate_text :: "pyval \<Rightarrow> pyval option" where
  "candidate_text c0 =
     (case (case getattr c0 ''content'' of None \<Rightarrow> None | Some content \<Rightarrow> content_text content) of
        Some v \<Rightarrow> Some v
      | None \<Rightarrow>
          (case (case getattr c0 ''output'' of None \<Rightarrow> None | Some out \<Rightarrow> output_list_text out) of
             Some v \<Rightarrow> Some v
           | None \<Rightarrow> getattr c0 ''text''))"

text \<open>The \<open>.output\<close> and \<open>.result\<close> containers of the response itself.\<close>

fun container_text :: "pyval \<Rightarrow> pyval option" where
  "container_text (PStr s) = Some (PStr s)"
| "container_text (PDict kvs) = map_of kvs ''content''"
| "container_text v = None"

datatype lookup = Found pyval | Nothing | Raised

definition try_shapes :: "response \<Rightarrow> lookup" where
  "try_shapes resp =
     (let attrs = resp_attrs resp;
          cand =
            (case map_of attrs ''candidates'' of
               None \<Rightarrow> Nothing
             | Some cs \<Rightarrow>
                 if truthy cs then
                   (case index0 cs of
                      None \<Rightarrow> Raised
                    | Some c0 \<Rightarrow> (case candidate_text c0 of Some v \<Rightarrow> Found v | None \<Rightarrow> Nothing))
                 else Nothing)
      in case cand of
           Found v \<Rightarrow> Found v
         | Raised \<Rightarrow> Raised
         | Nothing \<Rightarrow>
             (case map_of attrs ''text'' of
                Some (PStr s) \<Rightarrow> Found (PStr s)
              | _ \<Rightarrow>
                  (case (case map_of attrs ''output'' of None \<Rightarrow> None | Some out \<Rightarrow> container_text out) of
                     Some v \<Rightarrow> Found v
                   | None \<Rightarrow>
                       (case (case map_of attrs ''result'' of None \<Rightarrow> None | Some res \<Rightarrow> container_text res) of
                          Some v \<Rightarrow> Found v
                        | None \<Rightarrow> Nothing))))"

text \<open>
  \<open>extract_text_from_response\<close>: the first shape that matches; when none does, or when
  the navigation raises, \<open>str(resp)\<close>, and the empty string when that raises too.
\<close>

definition extract_text_from_response :: "response \<Rightarrow> pyval" where
  "extract_text_from_response resp =
     (case try_shapes resp of
        Found v \<Rightarrow> v
      | _ \<Rightarrow> (case resp_str resp of Some s \<Rightarrow> PStr s | None \<Rightarrow> PStr []))"

text \<open>
  \<open>sanitize_generated_text\<close> as \<open>run_hook\<close> calls it, on whatever the extraction
  returned: a falsy value gives the empty string, a string is sanitized, and any other
  value has no \<open>strip\<close> method, which raises.
\<close>

definition sanitize_value :: "pyval \<Rightarrow> py_exn + string" where
  "sanitize_value v =
     (if \<not> truthy v then Inr []
      else case v of
             PStr s \<Rightarrow> Inr (sanitize_generated_text s)
           | _ \<Rightarrow> Inl (AttributeError ''strip''))"

subsection \<open>The world and the trace\<close>

text \<open>
  What the script reads from outside: the environment variable, the outcome of
  \<open>git diff --staged\<close> (the call raised, or it completed with an exit status and a
  captured standard output), whether \<open>google.genai\<close> can be imported, and the outcome
  of the \<open>k\<close>-th call of \<open>generate_content\<close> (an exception with its text, or a
  response).
\<close>

datatype proc_result = SpawnError string | Completed int "string option"

datatype call_result = CallError string | CallOk response

record world =
  env_GEMINI_API_KEY :: "string option"
  git_diff_staged :: proc_result
  genai_importable :: bool
  generate_content :: "nat \<Rightarrow> call_result"

record invocation =
  commit_msg_filepath :: string
  commit_source :: "string option"
  dry_run :: bool

datatype event =
    Subprocess "string list"
  | RemoteCall string string string
  | Sleep nat
  | Stderr string
  | Stdout string
  | WriteFile string string

fun is_subprocess :: "event \<Rightarrow> bool" where
  "is_subprocess (Subprocess argv) = True"
| "is_subprocess e = False"

fun is_remote_call :: "event \<Rightarrow> bool" where
  "is_remote_call (RemoteCall m p k) = True"
| "is_remote_call e = False"

fun is_sleep :: "event \<Rightarrow> bool" where
  "is_sleep (Sleep n) = True"
| "is_sleep e = False"

fun is_stderr :: "event \<Rightarrow> bool" where
  "is_stderr (Stderr s) = True"
| "is_stderr e = False"

fun is_stdout :: "event \<Rightarrow> bool" where
  "is_stdout (Stdout s) = True"
| "is_stdout e = False"

fun is_write :: "event \<Rightarrow> bool" where
  "is_write (WriteFile p s) = True"
| "is_write e = False"

fun sleeps :: "event list \<Rightarrow> nat list" where
  "sleeps [] = []"
| "sleeps (Sleep n # es) = n # sleeps es"
| "sleeps (e # es) = sleeps es"

text \<open>Decimal digits of a number, as an f-string prints it.\<close>

fun str_nat :: "nat \<Rightarrow> string" where
  "str_nat n =
     (if n < 10 then [char_of (48 + n)]
      else str_nat (n div 10) @ [char_of (48 + n mod 10)])"

declare str_nat.simps [simp del]

subsection \<open>The stages\<close>

definition read_api_key :: "world \<Rightarrow> py_exn + string" where
  "read_api_key w =
     (case env_GEMINI_API_KEY w of
        None \<Rightarrow> Inl (ValueError ''GEMINI_API_KEY environment variable is not set.'')
      | Some key \<Rightarrow>
          if key = [] then Inl (ValueError ''GEMINI_API_KEY environment variable is not set.'')
          else Inr key)"

definition is_user_message_source :: "string option \<Rightarrow> bool" where
  "is_user_message_source src =
     (case src of
        None \<Rightarrow> False
      | Some s \<Rightarrow>
          if s = [] then False
          else (let l = lower s in l = ''message'' \<or> l = ''commit''))"

definition get_staged_diff :: "world \<Rightarrow> string \<times> event list" where
  "get_staged_diff w =
     (case git_diff_staged w of
        SpawnError e \<Rightarrow>
          ([], [Subprocess [''git'', ''diff'', ''--staged''],
                Stderr (''WARN: running git diff failed: '' @ e)])
      | Completed returncode out \<Rightarrow>
          ((case out of None \<Rightarrow> [] | Some s \<Rightarrow> s),
           [Subprocess [''git'', ''diff'', ''--staged'']]))"

definition PROMPT_HEAD :: string where
  "PROMPT_HEAD =
     ''You are an expert software developer and git maintainer. Based on the staged git diff below, compose a concise, high-quality commit message using the Conventional Commits format.\<newline>''
     @ ''\<newline>''
     @ ''Requirements (must follow exactly):\<newline>''
     @ ''- Output only the raw commit message with no commentary, explanation, or markdown formatting.\<newline>''
     @ ''- Use Conventional Commits types (e.g., feat, fix, docs, chore, refactor, perf, test).\<newline>''
     @ ''- Enforce a 50-character limit for the SUBJECT line (the first line). If necessary, shorten the subject to fit 50 characters while remaining clear.\<newline>''
     @ ''- The commit message should have a subject line (type: short summary) and, optionally, a blank line followed by a more detailed body if the changes require it.\<newline>''
     @ ''- Do NOT include surrounding backticks or triple-backticks in your output.\<newline>''
     @ ''\<newline>''
     @ ''Format example to emulate exactly (subject <= 50 chars):\<newline>''
     @ ''feat(parser): add support for X\<newline>''
     @ ''\<newline>''
     @ ''Add a short descriptive body if necessary. Keep the body lines reasonably wrapped.\<newline>''
     @ ''\<newline>''
     @ ''Staged git diff (do not invent changes, base message only on the diff below):\<newline>''
     @ ''\<newline>''"

definition build_prompt :: "string \<Rightarrow> string" where
  "build_prompt diff_text = PROMPT_HEAD @ diff_text"

text \<open>
  \<open>run_gemini\<close>, the \<open>k\<close>-th call: when the SDK cannot be imported it raises before any
  client exists; otherwise the outcome is the world's.
\<close>

definition run_gemini :: "world \<Rightarrow> string \<Rightarrow> string \<Rightarrow> nat \<Rightarrow> call_result \<times> event list" where
  "run_gemini w prompt api_key k =
     (if \<not> genai_importable w
      then (CallError ''Could not import google.genai. Install it with: pip install google-genai'', [])
      else (generate_content w k, [RemoteCall MODEL_NAME prompt api_key]))"

definition TRANSIENT_TOKENS :: "string list" where
  "TRANSIENT_TOKENS =
     [''503'', ''UNAVAILABLE'', ''overloaded'', ''rate limit'', ''rate_limited'',
      ''timeout'', ''timed out'']"

definition is_transient :: "string \<Rightarrow> bool" where
  "is_transient msg = list_ex (\<lambda>token. py_in token msg) TRANSIENT_TOKENS"

text \<open>
  The retry loop of \<open>run_hook\<close>, over the attempts that are left. It ends by \<open>break\<close>
  with a response, by \<open>raise\<close>, by \<open>return None\<close>, or by running out of attempts with
  \<open>response\<close> still \<open>None\<close>.
\<close>

datatype loop_exit = Broke response | RanOut | LoopRaised py_exn | ReturnedNone

fun retry_loop :: "world \<Rightarrow> string \<Rightarrow> string \<Rightarrow> nat \<Rightarrow> nat list \<Rightarrow> loop_exit \<times> event list" where
  "retry_loop w prompt api_key max_attempts [] = (RanOut, [])"
| "retry_loop w prompt api_key max_attempts (attempt # rest) =
     (case run_gemini w prompt api_key attempt of
        (CallOk r, evs) \<Rightarrow> (Broke r, evs)
      | (CallError e, evs) \<Rightarrow>
          if \<not> is_transient e
          then (LoopRaised (RuntimeError (''Gemini API call failed: '' @ e)), evs)
          else if attempt < max_attempts then
            (let wait = 2 ^ (attempt - 1);
                 warn = Stderr (''WARN: transient Gemini error (attempt '' @ str_nat attempt @ ''/''
                          @ str_nat max_attempts @ ''): '' @ e @ ''. Retrying in '' @ str_nat wait
                          @ ''s...'');
                 (x, evs') = retry_loop w prompt api_key max_attempts rest
             in (x, evs @ [warn, Sleep wait] @ evs'))
          else
            (ReturnedNone,
             evs @ [Stderr (''WARN: Gemini unavailable after '' @ str_nat max_attempts
                      @ '' attempts: '' @ e @ ''. Skipping AI commit message generation.'')]))"

text \<open>
  The message built from the sanitized text: the capped subject, and the other lines
  joined again after a blank line. \<open>None\<close> when the text has no line.
\<close>

definition format_message :: "string \<Rightarrow> string option" where
  "format_message cleaned =
     (case splitlines cleaned of
        [] \<Rightarrow> None
      | first # others \<Rightarrow>
          (let subject = truncate_subject (strip first);
               rest = rstrip (join ''\<newline>'' others)
           in Some (subject @ (if rest \<noteq> [] then ''\<newline>\<newline>'' @ rest else []))))"

text \<open>\<open>run_hook\<close> from the extraction on: what it returns or raises, and the file write.\<close>

definition finish :: "invocation \<Rightarrow> pyval \<Rightarrow> (py_exn + string option) \<times> event list" where
  "finish a raw =
     (case sanitize_value raw of
        Inl e \<Rightarrow> (Inl e, [])
      | Inr cleaned \<Rightarrow>
          if cleaned = []
          then (Inl (RuntimeError ''No text returned from Gemini or failed to parse response.''), [])
          else (case format_message cleaned of
                  None \<Rightarrow> (Inr None, [])
                | Some final_message \<Rightarrow>
                    if dry_run a then (Inr (Some final_message), [])
                    else (Inr (Some final_message),
                          [WriteFile (commit_msg_filepath a) (final_message @ ''\<newline>'')])))"

definition run_hook :: "world \<Rightarrow> invocation \<Rightarrow> (py_exn + string option) \<times> event list" where
  "run_hook w a =
     (if is_user_message_source (commit_source a) then (Inr None, [])
      else
        (case get_staged_diff w of
           (diff_text, ev1) \<Rightarrow>
             if strip diff_text = [] then (Inr None, ev1)
             else
               (let prompt = build_prompt diff_text
                in case read_api_key w of
                     Inl e \<Rightarrow> (Inl e, ev1)
                   | Inr api_key \<Rightarrow>
                       (case retry_loop w prompt api_key 3 [1 ..< 3 + 1] of
                          (LoopRaised e, ev2) \<Rightarrow> (Inl e, ev1 @ ev2)
                        | (ReturnedNone, ev2) \<Rightarrow> (Inr None, ev1 @ ev2)
                        | (Broke r, ev2) \<Rightarrow>
                            (case finish a (extract_text_from_response r) of
                               (res, ev3) \<Rightarrow> (res, ev1 @ ev2 @ ev3))
                        | (RanOut, ev2) \<Rightarrow>
                            (case finish a (PStr ''None'') of
                               (res, ev3) \<Rightarrow> (res, ev1 @ ev2 @ ev3))))))"

text \<open>
  \<open>main\<close> after argument parsing: the exit code it returns, or the exception it lets
  through (it catches \<open>ValueError\<close> and \<open>RuntimeError\<close> only).
\<close>

definition main :: "world \<Rightarrow> invocation \<Rightarrow> (py_exn + nat) \<times> event list" where
  "main w a =
     (case run_hook w a of
        (Inl (ValueError e), evs) \<Rightarrow> (Inr 1, evs @ [Stderr (''ERROR: '' @ e)])
      | (Inl (RuntimeError e), evs) \<Rightarrow> (Inr 2, evs @ [Stderr (''ERROR: '' @ e)])
      | (Inl other, evs) \<Rightarrow> (Inl other, evs)
      | (Inr result, evs) \<Rightarrow>
          (Inr 0,
           evs @ (case result of
                    None \<Rightarrow> []
                  | Some m \<Rightarrow> if dry_run a \<and> m \<noteq> [] then [Stdout (m @ ''\<newline>'')] else [])))"

subsection \<open>Notions used to state the properties\<close>

text \<open>
  A string is trimmed when \<open>strip\<close> has nothing to remove at either end, and wrapped
  when one of the last two strippings of \<open>sanitize_generated_text\<close> applies to it: it
  starts and ends with a backtick, with a double quote or with a single quote.
\<close>

definition trimmed :: "string \<Rightarrow> bool" where
  "trimmed t = (t = [] \<or> (\<not> py_isspace (hd t) \<and> \<not> py_isspace (last t)))"

definition wrapped :: "string \<Rightarrow> bool" where
  "wrapped t =
     ((startswith t ''`'' \<and> endswith t ''`'')
      \<or> (startswith t [CHR 0x22] \<and> endswith t [CHR 0x22])
      \<or> (startswith t [CHR 0x27] \<and> endswith t [CHR 0x27]))"

text \<open>
  Example worlds list the outcomes of the first calls of \<open>generate_content\<close>; a call
  past the list raises an exception with an empty text.
\<close>

definition outcomes_from :: "call_result list \<Rightarrow> nat \<Rightarrow> call_result" where
  "outcomes_from rs k = (if 1 \<le> k \<and> k \<le> length rs then rs ! (k - 1) else CallError [])"

section \<open>Properties\<close>

subsection \<open>Trimming\<close>

lemma rstrip_append_spaces: "s = rstrip s @ rev (takeWhile py_isspace (rev s))"
proof -
  have "rev (dropWhile py_isspace (rev s)) @ rev (takeWhile py_isspace (rev s))
        = rev (takeWhile py_isspace (rev s) @ dropWhile py_isspace (rev s))"
    by (simp only: rev_append)
  also have "\<dots> = s" by simp
  finally show ?thesis by (simp only: rstrip_def)
qed

lemma rstrip_last: "rstrip s \<noteq> [] \<Longrightarrow> \<not> py_isspace (last (rstrip s))"
  unfolding rstrip_def by (simp add: last_rev hd_dropWhile)

lemma rstrip_id: "s = [] \<or> \<not> py_isspace (last s) \<Longrightarrow> rstrip s = s"
proof (cases "s = []")
  case True then show ?thesis by (simp add: rstrip_def)
next
  case False
  assume "s = [] \<or> \<not> py_isspace (last s)"
  with False have "\<not> py_isspace (hd (rev s))" by (simp add: hd_rev)
  moreover from False have "rev s \<noteq> []" by simp
  ultimately have "dropWhile py_isspace (rev s) = rev s" by (cases "rev s") auto
  then show ?thesis by (simp add: rstrip_def)
qed

lemma rstrip_hd: "s \<noteq> [] \<Longrightarrow> \<not> py_isspace (hd s) \<Longrightarrow> rstrip s \<noteq> [] \<and> hd (rstrip s) = hd s"
proof -
  assume ne: "s \<noteq> []" and h: "\<not> py_isspace (hd s)"
  have dec: "s = rstrip s @ rev (takeWhile py_isspace (rev s))" by (rule rstrip_append_spaces)
  have all: "\<forall>c \<in> set (rev (takeWhile py_isspace (rev s))). py_isspace c"
    by (auto dest: set_takeWhileD)
  show ?thesis
  proof (cases "rstrip s = []")
    case True
    with dec have "s = rev (takeWhile py_isspace (rev s))" by simp
    with all have "\<forall>c \<in> set s. py_isspace c" by metis
    with ne h show ?thesis by (cases s) auto
  next
    case False
    with dec have "hd s = hd (rstrip s)" by (metis hd_append2)
    with False show ?thesis by simp
  qed
qed

lemma lstrip_hd: "lstrip s \<noteq> [] \<Longrightarrow> \<not> py_isspace (hd (lstrip s))"
  unfolding lstrip_def by (simp add: hd_dropWhile)

lemma lstrip_id: "s = [] \<or> \<not> py_isspace (hd s) \<Longrightarrow> lstrip s = s"
  unfolding lstrip_def by (cases s) auto

lemma strip_trimmed: "trimmed (strip s)"
proof (cases "lstrip s = []")
  case True
  then show ?thesis by (simp add: trimmed_def strip_def rstrip_def)
next
  case False
  then have h: "\<not> py_isspace (hd (lstrip s))" by (rule lstrip_hd)
  from rstrip_hd [OF False h] have "rstrip (lstrip s) \<noteq> []" and "hd (rstrip (lstrip s)) = hd (lstrip s)"
    by simp_all
  with h rstrip_last [of "lstrip s"] show ?thesis by (simp add: trimmed_def strip_def)
qed

lemma strip_id: "trimmed t \<Longrightarrow> strip t = t"
  unfolding trimmed_def strip_def
  by (metis lstrip_id rstrip_id)

lemma strip_idem: "strip (strip s) = strip s"
  by (rule strip_id) (rule strip_trimmed)

lemma length_rstrip_le: "length (rstrip s) \<le> length s"
  unfolding rstrip_def by (simp add: length_dropWhile_le order_trans [OF length_dropWhile_le])

lemma length_strip_le: "length (strip s) \<le> length s"
  unfolding strip_def lstrip_def
  by (rule order_trans [OF length_rstrip_le]) (rule length_dropWhile_le)

lemma sanitize_trimmed: "trimmed (sanitize_generated_text s)"
  unfolding sanitize_generated_text_def Let_def
  by (simp add: strip_trimmed trimmed_def [of "[]"])

lemma fence_wrapped: "startswith t ''```'' \<Longrightarrow> endswith t ''```'' \<Longrightarrow> startswith t ''`'' \<and> endswith t ''`''"
  unfolding startswith_def endswith_def
  by (auto simp: prefix_def suffix_def)

lemma sanitize_fixed: "trimmed t \<Longrightarrow> \<not> wrapped t \<Longrightarrow> sanitize_generated_text t = t"
  unfolding sanitize_generated_text_def Let_def wrapped_def
  using fence_wrapped [of t] by (auto simp: strip_id)

lemma length_slice_inner: "length (slice_inner a b t) = length t - b - a"
  by (simp add: slice_inner_def)

lemma startswith_length: "startswith t p \<Longrightarrow> length p \<le> length t"
  unfolding startswith_def by (rule prefix_length_le)

lemma strip_slice_less: "startswith t p \<Longrightarrow> p \<noteq> [] \<Longrightarrow> 0 < a \<Longrightarrow> length (strip (slice_inner a b t)) < length t"
proof -
  assume "startswith t p" "p \<noteq> []" "0 < a"
  then have "0 < length t" using startswith_length [of t p] by (cases p) auto
  moreover have "length (strip (slice_inner a b t)) \<le> length t - b - a"
    using length_strip_le [of "slice_inner a b t"] by (simp add: length_slice_inner)
  ultimately show ?thesis using \<open>0 < a\<close> by arith
qed

lemma sanitize_shrinks:
  assumes "trimmed t" and "wrapped t"
  shows "length (sanitize_generated_text t) < length t"
proof -
  from assms have ne: "t \<noteq> []" by (auto simp: wrapped_def startswith_def)
  define t1 where "t1 = (if startswith t ''```'' \<and> endswith t ''```'' then strip (slice_inner 3 3 t) else t)"
  define t2 where "t2 = (if startswith t1 ''`'' \<and> endswith t1 ''`'' then strip (slice_inner 1 1 t1) else t1)"
  define t3 where "t3 = (if (startswith t2 [CHR 0x22] \<and> endswith t2 [CHR 0x22])
                    \<or> (startswith t2 [CHR 0x27] \<and> endswith t2 [CHR 0x27])
                 then strip (slice_inner 1 1 t2) else t2)"
  have st: "strip t = t" by (rule strip_id [OF assms(1)])
  have san: "sanitize_generated_text t = t3"
    unfolding sanitize_generated_text_def Let_def t3_def t2_def t1_def
    by (simp only: ne st if_False)
  have l1: "length t1 \<le> length t"
    using order_trans [OF length_strip_le, of "slice_inner 3 3 t"]
    by (simp add: t1_def length_slice_inner)
  have l2: "length t2 \<le> length t1"
    using order_trans [OF length_strip_le, of "slice_inner 1 1 t1"]
    by (simp add: t2_def length_slice_inner)
  have l3: "length t3 \<le> length t2"
    using order_trans [OF length_strip_le, of "slice_inner 1 1 t2"]
    by (simp add: t3_def length_slice_inner)
  show ?thesis
  proof (cases "startswith t ''```'' \<and> endswith t ''```''")
    case True
    then have "length t1 < length t" using strip_slice_less [of t "''```''" 3 3] by (auto simp: t1_def)
    with l2 l3 san show ?thesis by simp
  next
    case nofence: False
    then have e1: "t1 = t" by (auto simp: t1_def)
    show ?thesis
    proof (cases "startswith t ''`'' \<and> endswith t ''`''")
      case True
      then have "length t2 < length t" using strip_slice_less [of t "''`''" 1 1] by (auto simp: t2_def e1)
      with l3 san show ?thesis by simp
    next
      case False
      then have e2: "t2 = t" by (auto simp: t2_def e1)
      from False assms(2) have q: "(startswith t [CHR 0x22] \<and> endswith t [CHR 0x22])
                    \<or> (startswith t [CHR 0x27] \<and> endswith t [CHR 0x27])"
        by (auto simp: wrapped_def)
      then have "length t3 < length t"
        using strip_slice_less [of t "[CHR 0x22]" 1 1] strip_slice_less [of t "[CHR 0x27]" 1 1]
        by (auto simp: t3_def e2)
      with san show ?thesis by simp
    qed
  qed
qed

subsection \<open>Splitting and joining\<close>

lemma split_nonempty: "split c s \<noteq> []"
  by (induction s) (auto split: list.splits)

lemma join_Cons: "ws \<noteq> [] \<Longrightarrow> join sep (w # ws) = w @ sep @ join sep ws"
  by (cases ws) auto

lemma join_split: "join [c] (split c s) = s"
proof (induction s)
  case Nil
  then show ?case by simp
next
  case (Cons x xs)
  show ?case
  proof (cases "x = c")
    case True
    then show ?thesis using Cons split_nonempty [of c xs] by (simp add: join_Cons)
  next
    case False
    obtain w ws where sp: "split c xs = w # ws"
      using split_nonempty [of c xs] by (cases "split c xs") auto
    with Cons have "join [c] (w # ws) = xs" by simp
    then have "join [c] ((x # w) # ws) = x # xs" by (cases ws) auto
    with False sp show ?thesis by simp
  qed
qed

lemma last_split: "c \<notin> set (last (split c s))"
proof (induction s)
  case Nil
  then show ?case by simp
next
  case (Cons x xs)
  obtain w ws where sp: "split c xs = w # ws"
    using split_nonempty [of c xs] by (cases "split c xs") auto
  with Cons show ?case by (cases ws) auto
qed

lemma butlast_split_nonempty: "c \<in> set s \<Longrightarrow> butlast (split c s) \<noteq> []"
proof (induction s)
  case Nil
  then show ?case by simp
next
  case (Cons x xs)
  obtain w ws where sp: "split c xs = w # ws"
    using split_nonempty [of c xs] by (cases "split c xs") auto
  show ?case
  proof (cases "x = c")
    case True
    with sp show ?thesis by simp
  next
    case False
    with Cons.prems have "c \<in> set xs" by simp
    with Cons.IH sp have "ws \<noteq> []" by (cases ws) auto
    with False sp show ?thesis by simp
  qed
qed

lemma join_snoc: "ws \<noteq> [] \<Longrightarrow> join sep (ws @ [w]) = join sep ws @ sep @ w"
proof (induction ws)
  case Nil
  then show ?case by simp
next
  case (Cons v vs)
  show ?case
  proof (cases "vs = []")
    case True
    then show ?thesis by simp
  next
    case False
    with Cons.IH have "join sep (vs @ [w]) = join sep vs @ sep @ w" by simp
    with False show ?thesis by (simp add: join_Cons)
  qed
qed

lemma split_last_sep:
  assumes "c \<in> set s"
  shows "s = join [c] (butlast (split c s)) @ [c] @ last (split c s)"
proof -
  have "split c s = butlast (split c s) @ [last (split c s)]"
    using split_nonempty [of c s] by simp
  then have "join [c] (split c s) = join [c] (butlast (split c s) @ [last (split c s)])"
    by simp
  also have "\<dots> = join [c] (butlast (split c s)) @ [c] @ last (split c s)"
    by (rule join_snoc [OF butlast_split_nonempty [OF assms]])
  finally show ?thesis by (simp only: join_split)
qed

lemma rstrip_idem: "rstrip (rstrip s) = rstrip s"
  by (simp add: rstrip_def dropWhile_idem)

lemma spaces_dropped: "list_all py_isspace (rev (takeWhile py_isspace (rev s)))"
  by (auto simp: list_all_iff dest: set_takeWhileD)

subsection \<open>The stages of the pipeline\<close>

lemma attempts_range: "[1 ..< 3 + 1] = [1, 2, 3::nat]"
  by (simp add: upt_rec)

lemma str_nat_small:
  "str_nat (Suc 0) = ''1''" "str_nat 1 = ''1''" "str_nat 2 = ''2''" "str_nat 3 = ''3''"
  by code_simp+

lemma get_staged_diff_events:
  "\<exists>rest. snd (get_staged_diff w) = Subprocess [''git'', ''diff'', ''--staged''] # rest
          \<and> (rest = [] \<or> (\<exists>m. rest = [Stderr m]))"
  by (cases "git_diff_staged w") (simp_all add: get_staged_diff_def)

lemma get_staged_diff_filters:
  "filter is_subprocess (snd (get_staged_diff w)) = [Subprocess [''git'', ''diff'', ''--staged'']]"
  "filter is_remote_call (snd (get_staged_diff w)) = []"
  "filter is_write (snd (get_staged_diff w)) = []"
  "filter is_stdout (snd (get_staged_diff w)) = []"
  "sleeps (snd (get_staged_diff w)) = []"
  by (cases "git_diff_staged w"; simp add: get_staged_diff_def)+

lemma sleeps_append: "sleeps (xs @ ys) = sleeps xs @ sleeps ys"
  by (induction xs rule: sleeps.induct) auto

lemma run_hook_skip:
  "is_user_message_source (commit_source a) \<Longrightarrow> run_hook w a = (Inr None, [])"
  by (simp add: run_hook_def)

lemma run_hook_empty_diff:
  "\<not> is_user_message_source (commit_source a) \<Longrightarrow> strip (fst (get_staged_diff w)) = []
   \<Longrightarrow> run_hook w a = (Inr None, snd (get_staged_diff w))"
  by (simp add: run_hook_def case_prod_beta)

lemma run_hook_no_key:
  "\<not> is_user_message_source (commit_source a) \<Longrightarrow> strip (fst (get_staged_diff w)) \<noteq> []
   \<Longrightarrow> read_api_key w = Inl e
   \<Longrightarrow> run_hook w a = (Inl e, snd (get_staged_diff w))"
  by (simp add: run_hook_def case_prod_beta)

lemma run_hook_reached:
  assumes "\<not> is_user_message_source (commit_source a)"
    and "strip (fst (get_staged_diff w)) \<noteq> []"
    and "read_api_key w = Inr api_key"
  shows "run_hook w a =
     (case retry_loop w (build_prompt (fst (get_staged_diff w))) api_key 3 [1, 2, 3] of
        (LoopRaised e, ev2) \<Rightarrow> (Inl e, snd (get_staged_diff w) @ ev2)
      | (ReturnedNone, ev2) \<Rightarrow> (Inr None, snd (get_staged_diff w) @ ev2)
      | (Broke r, ev2) \<Rightarrow>
          (fst (finish a (extract_text_from_response r)),
           snd (get_staged_diff w) @ ev2 @ snd (finish a (extract_text_from_response r)))
      | (RanOut, ev2) \<Rightarrow>
          (fst (finish a (PStr ''None'')),
           snd (get_staged_diff w) @ ev2 @ snd (finish a (PStr ''None''))))"
  unfolding run_hook_def attempts_range using assms
  by (simp add: case_prod_beta Let_def del: retry_loop.simps split: loop_exit.splits)

lemma loop_two_transient_then_ok:
  assumes "genai_importable w"
    and "generate_content w 1 = CallError e1" and "is_transient e1"
    and "generate_content w 2 = CallError e2" and "is_transient e2"
    and "generate_content w 3 = CallOk r"
  shows "retry_loop w p k 3 [1, 2, 3] =
     (Broke r,
      [RemoteCall MODEL_NAME p k,
       Stderr (''WARN: transient Gemini error (attempt 1/3): '' @ e1 @ ''. Retrying in 1s...''),
       Sleep 1,
       RemoteCall MODEL_NAME p k,
       Stderr (''WARN: transient Gemini error (attempt 2/3): '' @ e2 @ ''. Retrying in 2s...''),
       Sleep 2,
       RemoteCall MODEL_NAME p k])"
  using assms by (simp add: run_gemini_def str_nat_small)

lemma loop_three_transient:
  assumes "genai_importable w"
    and "generate_content w 1 = CallError e1" and "is_transient e1"
    and "generate_content w 2 = CallError e2" and "is_transient e2"
    and "generate_content w 3 = CallError e3" and "is_transient e3"
  shows "retry_loop w p k 3 [1, 2, 3] =
     (ReturnedNone,
      [RemoteCall MODEL_NAME p k,
       Stderr (''WARN: transient Gemini error (attempt 1/3): '' @ e1 @ ''. Retrying in 1s...''),
       Sleep 1,
       RemoteCall MODEL_NAME p k,
       Stderr (''WARN: transient Gemini error (attempt 2/3): '' @ e2 @ ''. Retrying in 2s...''),
       Sleep 2,
       RemoteCall MODEL_NAME p k,
       Stderr (''WARN: Gemini unavailable after 3 attempts: '' @ e3
               @ ''. Skipping AI commit message generation.'')])"
  using assms by (simp add: run_gemini_def str_nat_small)

lemma loop_first_fatal:
  assumes "genai_importable w"
    and "generate_content w 1 = CallError e" and "\<not> is_transient e"
  shows "retry_loop w p k 3 [1, 2, 3] =
     (LoopRaised (RuntimeError (''Gemini API call failed: '' @ e)), [RemoteCall MODEL_NAME p k])"
  using assms by (simp add: run_gemini_def)




lemma finish_events:
  "snd (finish a raw) = [] \<or> (\<exists>m. snd (finish a raw) = [WriteFile (commit_msg_filepath a) m] \<and> \<not> dry_run a)"
  by (auto simp: finish_def split: sum.splits option.splits)

lemma main_of_run_hook:
  "main w a =
     (case run_hook w a of
        (Inl (ValueError e), evs) \<Rightarrow> (Inr 1, evs @ [Stderr (''ERROR: '' @ e)])
      | (Inl (RuntimeError e), evs) \<Rightarrow> (Inr 2, evs @ [Stderr (''ERROR: '' @ e)])
      | (Inl (AttributeError e), evs) \<Rightarrow> (Inl (AttributeError e), evs)
      | (Inr None, evs) \<Rightarrow> (Inr 0, evs)
      | (Inr (Some m), evs) \<Rightarrow>
          (Inr 0, evs @ (if dry_run a \<and> m \<noteq> [] then [Stdout (m @ ''\<newline>'')] else [])))"
  by (simp add: main_def split: prod.splits sum.splits py_exn.splits option.splits)

lemma finish_result:
  "sanitize_value raw = Inr t \<Longrightarrow> t \<noteq> [] \<Longrightarrow> fst (finish a raw) = Inr (format_message t)"
  by (simp add: finish_def split: option.splits)


lemma finish_filters:
  "sleeps (snd (finish a raw)) = []"
  "filter is_remote_call (snd (finish a raw)) = []"
  "filter is_subprocess (snd (finish a raw)) = []"
  "filter is_stdout (snd (finish a raw)) = []"
  by (auto simp: finish_def split: sum.splits option.splits)

lemma sanitize_value_trimmed: "sanitize_value v = Inr t \<Longrightarrow> trimmed t"
  using sanitize_trimmed by (auto simp: sanitize_value_def trimmed_def [of "[]"] split: if_splits pyval.splits)

lemma splitlines_single:
  assumes "t \<noteq> []" and "\<not> list_ex is_linebreak t"
  shows "splitlines t = [t]"
proof -
  from assms(2) have all: "\<forall>c \<in> set t. \<not> is_linebreak c" by (simp add: list_ex_iff)
  then have tw: "takeWhile (\<lambda>c. \<not> is_linebreak c) t = t" by (simp add: takeWhile_eq_all_conv)
  from all have dw: "dropWhile (\<lambda>c. \<not> is_linebreak c) t = []" by simp
  have "splitlines t = takeWhile (\<lambda>c. \<not> is_linebreak c) t
          # splitlines (skip_break (dropWhile (\<lambda>c. \<not> is_linebreak c) t))"
    using assms(1) by (subst splitlines.simps) simp
  also have "\<dots> = [t]" unfolding tw dw by (subst splitlines.simps) simp
  finally show ?thesis .
qed

lemma format_single_line:
  assumes "t \<noteq> []" and "trimmed t" and "\<not> list_ex is_linebreak t"
    and "length t \<le> MAX_SUBJECT_LENGTH"
  shows "format_message t = Some t"
proof -
  have sl: "splitlines t = [t]" by (rule splitlines_single [OF assms(1,3)])
  have st: "strip t = t" by (rule strip_id [OF assms(2)])
  have tr: "truncate_subject t = t" using assms(4) by (simp add: truncate_subject_def)
  have rs: "rstrip [] = []" by (simp add: rstrip_def)
  show ?thesis
    unfolding format_message_def sl Let_def by (simp add: st tr rs)
qed






lemma run_hook_trace_starts:
  assumes "\<not> is_user_message_source (commit_source a)"
  shows "\<exists>evs. snd (run_hook w a) = snd (get_staged_diff w) @ evs"
proof (cases "strip (fst (get_staged_diff w)) = []")
  case True
  from run_hook_empty_diff [OF assms True] show ?thesis by simp
next
  case d: False
  show ?thesis
  proof (cases "read_api_key w")
    case (Inl e)
    from run_hook_no_key [OF assms d Inl] show ?thesis by simp
  next
    case (Inr api_key)
    show ?thesis
      unfolding run_hook_reached [OF assms d Inr]
      by (simp split: prod.splits loop_exit.splits del: retry_loop.simps)
  qed
qed

subsection \<open>Lower case\<close>

lemma lower_char_eq_iff:
  assumes "97 \<le> (of_char d :: nat)" and "(of_char d :: nat) \<le> 122"
  shows "lower_char c = d \<longleftrightarrow> c = d \<or> of_char c + 32 = (of_char d :: nat)"
proof -
  let ?n = "of_char c :: nat"
  show ?thesis
  proof (cases "(65 \<le> ?n \<and> ?n \<le> 90) \<or> (192 \<le> ?n \<and> ?n \<le> 222 \<and> ?n \<noteq> 215)")
    case True
    then have l: "lower_char c = char_of (?n + 32)" by (simp add: lower_char_def Let_def)
    from True have "?n + 32 < 256" by arith
    then have "take_bit 8 (?n + 32) = ?n + 32" by (simp only: take_bit_nat_eq_self_iff) simp
    then have A: "char_of (?n + 32) = d \<longleftrightarrow> ?n + 32 = of_char d"
      by (simp only: char_of_eq_iff)
    have B: "c \<noteq> d"
    proof
      assume "c = d"
      then have "?n = of_char d" by (simp only:)
      with True assms show False by arith
    qed
    from A B show ?thesis unfolding l by blast
  next
    case False
    then have l: "lower_char c = c" by (auto simp: lower_char_def Let_def)
    from False assms have "?n + 32 \<noteq> of_char d" by arith
    then show ?thesis unfolding l by blast
  qed
qed

lemma lower_eq_iff:
  assumes "\<forall>d \<in> set s. 97 \<le> (of_char d :: nat) \<and> (of_char d :: nat) \<le> 122"
  shows "lower tag = s \<longleftrightarrow> list_all2 (\<lambda>c d. c = d \<or> of_char c + 32 = (of_char d :: nat)) tag s"
  using assms
proof (induction tag arbitrary: s)
  case Nil
  then show ?case by (auto simp: lower_def)
next
  case (Cons c cs)
  show ?case
  proof (cases s)
    case Nil
    then show ?thesis by (simp add: lower_def)
  next
    case (Cons d ds)
    with Cons.prems have r: "97 \<le> (of_char d :: nat)" "(of_char d :: nat) \<le> 122"
      and rest: "\<forall>d \<in> set ds. 97 \<le> (of_char d :: nat) \<and> (of_char d :: nat) \<le> 122"
      by simp_all
    from Cons.IH [OF rest] lower_char_eq_iff [OF r, of c] Cons
    show ?thesis by (simp add: lower_def)
  qed
qed

subsection \<open>C1: a missing credential\<close>

text \<open>
  Claim C1 says that with the credential unset, a commit source that is no skip marker
  and a non-empty staged diff, the run fails with exit code 1 before any subprocess or
  network call. The exit code is 1 and there is no network call, but \<open>run_hook\<close> reads
  the staged diff before it reads the credential, so the \<open>git diff\<close> subprocess has run
  by then. And a staged diff of white space only, though not empty, ends the run with
  exit code 0 before the credential is looked at.
\<close>

theorem missing_key_runs_diff_first:
  "main \<lparr>env_GEMINI_API_KEY = None, git_diff_staged = Completed 0 (Some ''+x''),
          genai_importable = True, generate_content = outcomes_from []\<rparr>
        \<lparr>commit_msg_filepath = ''COMMIT_EDITMSG'', commit_source = None, dry_run = False\<rparr>
     = (Inr 1, [Subprocess [''git'', ''diff'', ''--staged''],
                Stderr ''ERROR: GEMINI_API_KEY environment variable is not set.''])
   \<and> main \<lparr>env_GEMINI_API_KEY = None, git_diff_staged = Completed 0 (Some '' ''),
            genai_importable = True, generate_content = outcomes_from []\<rparr>
          \<lparr>commit_msg_filepath = ''COMMIT_EDITMSG'', commit_source = None, dry_run = False\<rparr>
     = (Inr 0, [Subprocess [''git'', ''diff'', ''--staged'']])"
  by code_simp

text \<open>
  Claim C1 as amended: with the credential unset or empty, a commit source that is no
  skip marker and a staged diff that is not empty after trimming, \<open>main\<close> returns exit
  code 1; the diff subprocess is the one subprocess that ran, and no network call, no
  sleep and no file write happened.
\<close>

theorem missing_key_exit_code:
  assumes "env_GEMINI_API_KEY w = None \<or> env_GEMINI_API_KEY w = Some []"
    and "\<not> is_user_message_source (commit_source a)"
    and "strip (fst (get_staged_diff w)) \<noteq> []"
  shows "main w a = (Inr 1, snd (get_staged_diff w)
                            @ [Stderr ''ERROR: GEMINI_API_KEY environment variable is not set.''])
         \<and> filter is_subprocess (snd (main w a)) = [Subprocess [''git'', ''diff'', ''--staged'']]
         \<and> filter is_remote_call (snd (main w a)) = []
         \<and> sleeps (snd (main w a)) = []
         \<and> filter is_write (snd (main w a)) = []"
proof -
  from assms(1) have "read_api_key w = Inl (ValueError ''GEMINI_API_KEY environment variable is not set.'')"
    by (auto simp: read_api_key_def)
  from run_hook_no_key [OF assms(2,3) this]
  have m: "main w a = (Inr 1, snd (get_staged_diff w)
                            @ [Stderr ''ERROR: GEMINI_API_KEY environment variable is not set.''])"
    by (simp add: main_of_run_hook)
  show ?thesis
    unfolding m by (simp add: get_staged_diff_filters sleeps_append)
qed

theorem missing_key_exit_code_witness:
  "main \<lparr>env_GEMINI_API_KEY = Some [], git_diff_staged = Completed 0 (Some ''+x''),
          genai_importable = True, generate_content = outcomes_from []\<rparr>
        \<lparr>commit_msg_filepath = ''COMMIT_EDITMSG'', commit_source = Some ''merge'', dry_run = False\<rparr>
     = (Inr 1, [Subprocess [''git'', ''diff'', ''--staged''],
                Stderr ''ERROR: GEMINI_API_KEY environment variable is not set.''])
   \<and> filter is_remote_call (snd (main \<lparr>env_GEMINI_API_KEY = Some [], git_diff_staged = Completed 0 (Some ''+x''),
          genai_importable = True, generate_content = outcomes_from []\<rparr>
        \<lparr>commit_msg_filepath = ''COMMIT_EDITMSG'', commit_source = Some ''merge'', dry_run = False\<rparr>)) = []"
proof -
  let ?w = "\<lparr>env_GEMINI_API_KEY = Some [], git_diff_staged = Completed 0 (Some ''+x''),
          genai_importable = True, generate_content = outcomes_from []\<rparr>"
  let ?a = "\<lparr>commit_msg_filepath = ''COMMIT_EDITMSG'', commit_source = Some ''merge'', dry_run = False\<rparr>"
  have h1: "env_GEMINI_API_KEY ?w = None \<or> env_GEMINI_API_KEY ?w = Some []" by simp
  have h2: "\<not> is_user_message_source (commit_source ?a)" by code_simp
  have h3: "strip (fst (get_staged_diff ?w)) \<noteq> []" by code_simp
  have ev: "snd (get_staged_diff ?w) = [Subprocess [''git'', ''diff'', ''--staged'']]" by code_simp
  from missing_key_exit_code [OF h1 h2 h3] show ?thesis unfolding ev by simp
qed

subsection \<open>C2: sanitizing twice\<close>

text \<open>
  Claim C2 says that \<open>sanitize_generated_text\<close> is idempotent. It is not: each layer
  is stripped at most once per call, so text wrapped in two backticks on each side
  loses one layer in the first call and the other in the second.
\<close>

theorem sanitize_not_idempotent:
  "sanitize_generated_text ''``a``'' = ''`a`''
   \<and> sanitize_generated_text (sanitize_generated_text ''``a``'') = ''a''"
  by code_simp

text \<open>
  Claim C2 as amended: sanitizing the sanitizer's output again changes nothing exactly
  when that output is not wrapped any more, that is, when it does not both start and
  end with a backtick, with a double quote or with a single quote.
\<close>

theorem sanitize_twice_iff:
  "sanitize_generated_text (sanitize_generated_text s) = sanitize_generated_text s
   \<longleftrightarrow> \<not> wrapped (sanitize_generated_text s)"
proof
  assume eq: "sanitize_generated_text (sanitize_generated_text s) = sanitize_generated_text s"
  show "\<not> wrapped (sanitize_generated_text s)"
  proof
    assume "wrapped (sanitize_generated_text s)"
    from sanitize_shrinks [OF sanitize_trimmed this] eq show False by simp
  qed
next
  assume "\<not> wrapped (sanitize_generated_text s)"
  then show "sanitize_generated_text (sanitize_generated_text s) = sanitize_generated_text s"
    by (rule sanitize_fixed [OF sanitize_trimmed])
qed

subsection \<open>C3: failures of the diff subprocess\<close>

text \<open>
  Claim C3 says that every failure of the diff subprocess, a non-zero exit status
  included, gives empty text and a warning. \<open>get_staged_diff\<close> runs the subprocess with
  \<open>check=False\<close> and never reads the exit status: a run that completes with a non-zero
  status gives its captured output, whatever it is, and no warning.
\<close>

theorem nonzero_exit_no_warning:
  "get_staged_diff \<lparr>env_GEMINI_API_KEY = Some ''k'', git_diff_staged = Completed 128 (Some []),
          genai_importable = True, generate_content = outcomes_from []\<rparr>
     = ([], [Subprocess [''git'', ''diff'', ''--staged'']])
   \<and> get_staged_diff \<lparr>env_GEMINI_API_KEY = Some ''k'', git_diff_staged = Completed 1 (Some ''+x''),
          genai_importable = True, generate_content = outcomes_from []\<rparr>
     = (''+x'', [Subprocess [''git'', ''diff'', ''--staged'']])"
  by code_simp

text \<open>
  Claim C3 as amended: when the call of the subprocess raises (the tool is missing, or
  any other exception), the collector returns empty text after one warning on the
  diagnostic stream; when the subprocess completes, with any exit status, the collector
  returns its captured output (empty when there is none) without a warning; and
  whenever the collected diff is empty after trimming, the run stops there: no message,
  exit code 0, no network call, no file write, nothing printed.
\<close>

theorem diff_collector_failures:
  "(git_diff_staged w = SpawnError e \<longrightarrow>
      get_staged_diff w = ([], [Subprocess [''git'', ''diff'', ''--staged''],
                                Stderr (''WARN: running git diff failed: '' @ e)]))
   \<and> (git_diff_staged w = Completed returncode out \<longrightarrow>
      get_staged_diff w = ((case out of None \<Rightarrow> [] | Some s \<Rightarrow> s),
                           [Subprocess [''git'', ''diff'', ''--staged'']]))
   \<and> (\<not> is_user_message_source (commit_source a) \<and> strip (fst (get_staged_diff w)) = [] \<longrightarrow>
      run_hook w a = (Inr None, snd (get_staged_diff w))
      \<and> main w a = (Inr 0, snd (get_staged_diff w))
      \<and> filter is_remote_call (snd (main w a)) = []
      \<and> filter is_write (snd (main w a)) = []
      \<and> filter is_stdout (snd (main w a)) = [])"
proof (intro conjI impI)
  assume "git_diff_staged w = SpawnError e"
  then show "get_staged_diff w = ([], [Subprocess [''git'', ''diff'', ''--staged''],
                                Stderr (''WARN: running git diff failed: '' @ e)])"
    by (simp add: get_staged_diff_def)
next
  assume "git_diff_staged w = Completed returncode out"
  then show "get_staged_diff w = ((case out of None \<Rightarrow> [] | Some s \<Rightarrow> s),
                           [Subprocess [''git'', ''diff'', ''--staged'']])"
    by (simp add: get_staged_diff_def)
next
  assume h: "\<not> is_user_message_source (commit_source a) \<and> strip (fst (get_staged_diff w)) = []"
  then show r: "run_hook w a = (Inr None, snd (get_staged_diff w))"
    by (simp add: run_hook_empty_diff)
  then show m: "main w a = (Inr 0, snd (get_staged_diff w))"
    by (simp add: main_of_run_hook)
  show "filter is_remote_call (snd (main w a)) = []"
    and "filter is_write (snd (main w a)) = []"
    and "filter is_stdout (snd (main w a)) = []"
    unfolding m by (simp_all add: get_staged_diff_filters)
qed

theorem diff_collector_failures_witness:
  "get_staged_diff \<lparr>env_GEMINI_API_KEY = Some ''k'',
                     git_diff_staged = SpawnError ''[Errno 2] No such file or directory'',
                     genai_importable = True, generate_content = outcomes_from []\<rparr>
     = ([], [Subprocess [''git'', ''diff'', ''--staged''],
             Stderr ''WARN: running git diff failed: [Errno 2] No such file or directory''])
   \<and> get_staged_diff \<lparr>env_GEMINI_API_KEY = Some ''k'',
                     git_diff_staged = Completed 128 None,
                     genai_importable = True, generate_content = outcomes_from []\<rparr>
     = ([], [Subprocess [''git'', ''diff'', ''--staged'']])
   \<and> main \<lparr>env_GEMINI_API_KEY = Some ''k'',
            git_diff_staged = SpawnError ''[Errno 2] No such file or directory'',
            genai_importable = True, generate_content = outcomes_from []\<rparr>
          \<lparr>commit_msg_filepath = ''COMMIT_EDITMSG'', commit_source = None, dry_run = False\<rparr>
     = (Inr 0, [Subprocess [''git'', ''diff'', ''--staged''],
                Stderr ''WARN: running git diff failed: [Errno 2] No such file or directory''])"
proof -
  let ?w = "\<lparr>env_GEMINI_API_KEY = Some ''k'',
             git_diff_staged = SpawnError ''[Errno 2] No such file or directory'',
             genai_importable = True, generate_content = outcomes_from []\<rparr>"
  let ?v = "\<lparr>env_GEMINI_API_KEY = Some ''k'',
             git_diff_staged = Completed 128 None,
             genai_importable = True, generate_content = outcomes_from []\<rparr>"
  let ?a = "\<lparr>commit_msg_filepath = ''COMMIT_EDITMSG'', commit_source = None, dry_run = False\<rparr>"
  have h1: "git_diff_staged ?w = SpawnError ''[Errno 2] No such file or directory''" by simp
  have h2: "git_diff_staged ?v = Completed 128 None" by simp
  have h3: "\<not> is_user_message_source (commit_source ?a) \<and> strip (fst (get_staged_diff ?w)) = []"
    by code_simp
  have ev: "snd (get_staged_diff ?w) = [Subprocess [''git'', ''diff'', ''--staged''],
             Stderr ''WARN: running git diff failed: [Errno 2] No such file or directory'']"
    by code_simp
  from diff_collector_failures [of ?w "''[Errno 2] No such file or directory''" 0 None ?a] h1 h3
  have a: "get_staged_diff ?w = ([], [Subprocess [''git'', ''diff'', ''--staged''],
             Stderr ''WARN: running git diff failed: [Errno 2] No such file or directory''])"
    and c: "main ?w ?a = (Inr 0, snd (get_staged_diff ?w))"
    by simp_all
  from diff_collector_failures [of ?v "[]" 128 None ?a] h2
  have b: "get_staged_diff ?v = ([], [Subprocess [''git'', ''diff'', ''--staged'']])"
    by simp
  from a b c show ?thesis unfolding ev by simp
qed

subsection \<open>C4: the subject cap\<close>

text \<open>
  Claim C4: for a subject longer than 50 characters, when the first 50 characters have
  a space, the final subject is a piece at the start of them that has no white space at
  its end, what follows it there is white space, a space and a last word without a
  space (the dropped partial word), and it has at most 50 characters; when the first 50
  characters have no space, the final subject is exactly these 50 characters.
\<close>

theorem subject_truncation:
  assumes "length subject > MAX_SUBJECT_LENGTH"
  shows "(CHR '' '' \<in> set (take MAX_SUBJECT_LENGTH subject) \<longrightarrow>
            (\<exists>ws p. take MAX_SUBJECT_LENGTH subject = truncate_subject subject @ ws @ '' '' @ p
                     \<and> list_all py_isspace ws \<and> CHR '' '' \<notin> set p)
            \<and> rstrip (truncate_subject subject) = truncate_subject subject
            \<and> length (truncate_subject subject) \<le> MAX_SUBJECT_LENGTH)
         \<and> (CHR '' '' \<notin> set (take MAX_SUBJECT_LENGTH subject) \<longrightarrow>
              truncate_subject subject = take MAX_SUBJECT_LENGTH subject)"
proof (intro conjI impI)
  assume nosp: "CHR '' '' \<notin> set (take MAX_SUBJECT_LENGTH subject)"
  with assms show "truncate_subject subject = take MAX_SUBJECT_LENGTH subject"
    by (simp add: truncate_subject_def)
next
  let ?t = "take MAX_SUBJECT_LENGTH subject"
  let ?pre = "join '' '' (butlast (split (CHR '' '') ?t))"
  assume sp: "CHR '' '' \<in> set ?t"
  with assms have res: "truncate_subject subject = rstrip ?pre"
    by (simp add: truncate_subject_def)
  from split_last_sep [OF sp] have dec: "?t = ?pre @ '' '' @ last (split (CHR '' '') ?t)" .
  have pre: "?pre = rstrip ?pre @ rev (takeWhile py_isspace (rev ?pre))"
    by (rule rstrip_append_spaces)
  have "?t = rstrip ?pre @ rev (takeWhile py_isspace (rev ?pre)) @ '' '' @ last (split (CHR '' '') ?t)"
    using dec pre by (metis append_assoc)
  then have "?t = truncate_subject subject @ rev (takeWhile py_isspace (rev ?pre)) @ '' ''
                  @ last (split (CHR '' '') ?t)
             \<and> list_all py_isspace (rev (takeWhile py_isspace (rev ?pre)))
             \<and> CHR '' '' \<notin> set (last (split (CHR '' '') ?t))"
    using res spaces_dropped last_split by simp
  then show "\<exists>ws p. ?t = truncate_subject subject @ ws @ '' '' @ p
                     \<and> list_all py_isspace ws \<and> CHR '' '' \<notin> set p"
    by blast
  show "rstrip (truncate_subject subject) = truncate_subject subject"
    by (simp add: res rstrip_idem)
  have "length (rstrip ?pre) \<le> length ?pre" by (rule length_rstrip_le)
  also have "length ?pre \<le> length ?t" using arg_cong [OF dec, of length] by simp
  also have "length ?t \<le> MAX_SUBJECT_LENGTH" by simp
  finally show "length (truncate_subject subject) \<le> MAX_SUBJECT_LENGTH" by (simp add: res)
qed

theorem subject_truncation_witness:
  "(\<exists>ws p. take MAX_SUBJECT_LENGTH ''feat(parser): add support for a very long subject line that goes on''
             = truncate_subject ''feat(parser): add support for a very long subject line that goes on''
               @ ws @ '' '' @ p
           \<and> list_all py_isspace ws \<and> CHR '' '' \<notin> set p)
   \<and> truncate_subject ''feat(parser): add support for a very long subject line that goes on''
       = ''feat(parser): add support for a very long subject''
   \<and> length (truncate_subject ''feat(parser): add support for a very long subject line that goes on'')
       \<le> MAX_SUBJECT_LENGTH
   \<and> truncate_subject ''aaaaaaaaaabbbbbbbbbbccccccccccddddddddddeeeeeeeeeefffff''
       = take MAX_SUBJECT_LENGTH ''aaaaaaaaaabbbbbbbbbbccccccccccddddddddddeeeeeeeeeefffff''"
proof -
  let ?s = "''feat(parser): add support for a very long subject line that goes on''"
  let ?u = "''aaaaaaaaaabbbbbbbbbbccccccccccddddddddddeeeeeeeeeefffff''"
  have h1: "length ?s > MAX_SUBJECT_LENGTH" by code_simp
  have h2: "CHR '' '' \<in> set (take MAX_SUBJECT_LENGTH ?s)" by code_simp
  have h3: "length ?u > MAX_SUBJECT_LENGTH" by code_simp
  have h4: "CHR '' '' \<notin> set (take MAX_SUBJECT_LENGTH ?u)" by code_simp
  have v: "truncate_subject ?s = ''feat(parser): add support for a very long subject''" by code_simp
  from subject_truncation [OF h1] h2 subject_truncation [OF h3] h4 v show ?thesis by blast
qed

subsection \<open>C5: two transient errors, then success\<close>

text \<open>
  Claim C5 says that after two transient errors and a success the final output equals
  the sanitized text of the third attempt. The final output is built from that text by
  the subject rule, so it differs whenever the rule changes something, as for a subject
  longer than 50 characters.
\<close>

theorem third_attempt_output_differs:
  "fst (run_hook
          \<lparr>env_GEMINI_API_KEY = Some ''k'', git_diff_staged = Completed 0 (Some ''+x''),
           genai_importable = True,
           generate_content = outcomes_from
             [CallError ''503'', CallError ''503'',
              CallOk \<lparr>resp_attrs =
                        [(''text'', PStr ''feat(parser): add support for a very long subject line that goes on'')],
                      resp_str = None\<rparr>]\<rparr>
          \<lparr>commit_msg_filepath = ''COMMIT_EDITMSG'', commit_source = None, dry_run = True\<rparr>)
     = Inr (Some ''feat(parser): add support for a very long subject'')
   \<and> sanitize_value (extract_text_from_response
          \<lparr>resp_attrs =
             [(''text'', PStr ''feat(parser): add support for a very long subject line that goes on'')],
           resp_str = None\<rparr>)
     = Inr ''feat(parser): add support for a very long subject line that goes on''"
  by code_simp

text \<open>
  Claim C5 as amended: when the first two attempts raise transient errors and the third
  returns a response whose sanitized text \<open>t\<close> is not empty, the result of \<open>run_hook\<close>
  is the message built from \<open>t\<close> (\<open>format_message\<close>: the first line trimmed and capped,
  the other lines after a blank line), which is \<open>t\<close> itself when \<open>t\<close> is one line of at most
  50 characters; there are exactly two sleeps, of 1 and then 2 seconds, and three
  remote calls.
\<close>

theorem retry_then_success:
  assumes "\<not> is_user_message_source (commit_source a)"
    and "strip (fst (get_staged_diff w)) \<noteq> []"
    and "read_api_key w = Inr api_key"
    and "genai_importable w"
    and "generate_content w 1 = CallError e1" and "is_transient e1"
    and "generate_content w 2 = CallError e2" and "is_transient e2"
    and "generate_content w 3 = CallOk r"
    and "sanitize_value (extract_text_from_response r) = Inr t" and "t \<noteq> []"
  shows "fst (run_hook w a) = Inr (format_message t)
         \<and> sleeps (snd (run_hook w a)) = [1, 2]
         \<and> length (filter is_remote_call (snd (run_hook w a))) = 3
         \<and> (\<not> list_ex is_linebreak t \<and> length t \<le> MAX_SUBJECT_LENGTH \<longrightarrow>
              fst (run_hook w a) = Inr (Some t))"
proof -
  let ?p = "build_prompt (fst (get_staged_diff w))"
  let ?raw = "extract_text_from_response r"
  have run: "run_hook w a =
      (fst (finish a ?raw),
       snd (get_staged_diff w)
       @ [RemoteCall MODEL_NAME ?p api_key,
          Stderr (''WARN: transient Gemini error (attempt 1/3): '' @ e1 @ ''. Retrying in 1s...''),
          Sleep 1,
          RemoteCall MODEL_NAME ?p api_key,
          Stderr (''WARN: transient Gemini error (attempt 2/3): '' @ e2 @ ''. Retrying in 2s...''),
          Sleep 2,
          RemoteCall MODEL_NAME ?p api_key]
       @ snd (finish a ?raw))"
    unfolding run_hook_reached [OF assms(1-3)]
      loop_two_transient_then_ok [OF assms(4-9)]
    by simp
  have res: "fst (run_hook w a) = Inr (format_message t)"
    unfolding run by (simp add: finish_result [OF assms(10,11)])
  have sl: "sleeps (snd (run_hook w a)) = [1, 2]"
    unfolding run by (simp add: sleeps_append get_staged_diff_filters finish_filters)
  have rc: "length (filter is_remote_call (snd (run_hook w a))) = 3"
    unfolding run by (simp add: get_staged_diff_filters finish_filters)
  have one: "fst (run_hook w a) = Inr (Some t)"
    if "\<not> list_ex is_linebreak t \<and> length t \<le> MAX_SUBJECT_LENGTH"
    using that res format_single_line [OF assms(11) sanitize_value_trimmed [OF assms(10)]]
    by simp
  from res sl rc one show ?thesis by blast
qed

theorem retry_then_success_witness:
  "fst (run_hook
          \<lparr>env_GEMINI_API_KEY = Some ''k'', git_diff_staged = Completed 0 (Some ''+x''),
           genai_importable = True,
           generate_content = outcomes_from
             [CallError ''503 UNAVAILABLE'', CallError ''503 UNAVAILABLE'',
              CallOk \<lparr>resp_attrs = [(''text'', PStr ''```feat: x```'')], resp_str = None\<rparr>]\<rparr>
          \<lparr>commit_msg_filepath = ''COMMIT_EDITMSG'', commit_source = None, dry_run = True\<rparr>)
     = Inr (Some ''feat: x'')
   \<and> sleeps (snd (run_hook
          \<lparr>env_GEMINI_API_KEY = Some ''k'', git_diff_staged = Completed 0 (Some ''+x''),
           genai_importable = True,
           generate_content = outcomes_from
             [CallError ''503 UNAVAILABLE'', CallError ''503 UNAVAILABLE'',
              CallOk \<lparr>resp_attrs = [(''text'', PStr ''```feat: x```'')], resp_str = None\<rparr>]\<rparr>
          \<lparr>commit_msg_filepath = ''COMMIT_EDITMSG'', commit_source = None, dry_run = True\<rparr>))
     = [1, 2]"
proof -
  let ?r = "\<lparr>resp_attrs = [(''text'', PStr ''```feat: x```'')], resp_str = None\<rparr>"
  let ?w = "\<lparr>env_GEMINI_API_KEY = Some ''k'', git_diff_staged = Completed 0 (Some ''+x''),
           genai_importable = True,
           generate_content = outcomes_from
             [CallError ''503 UNAVAILABLE'', CallError ''503 UNAVAILABLE'', CallOk ?r]\<rparr>"
  let ?a = "\<lparr>commit_msg_filepath = ''COMMIT_EDITMSG'', commit_source = None, dry_run = True\<rparr>"
  have h1: "\<not> is_user_message_source (commit_source ?a)" by code_simp
  have h2: "strip (fst (get_staged_diff ?w)) \<noteq> []" by code_simp
  have h3: "read_api_key ?w = Inr ''k''" by code_simp
  have h4: "genai_importable ?w" by simp
  have h5: "generate_content ?w 1 = CallError ''503 UNAVAILABLE''" by code_simp
  have h6: "is_transient ''503 UNAVAILABLE''" by code_simp
  have h7: "generate_content ?w 2 = CallError ''503 UNAVAILABLE''" by code_simp
  have h8: "generate_content ?w 3 = CallOk ?r" by code_simp
  have h9: "sanitize_value (extract_text_from_response ?r) = Inr ''feat: x''" by code_simp
  have h10: "''feat: x'' \<noteq> []" by simp
  have h11: "\<not> list_ex is_linebreak ''feat: x'' \<and> length ''feat: x'' \<le> MAX_SUBJECT_LENGTH"
    by code_simp
  from retry_then_success [OF h1 h2 h3 h4 h5 h6 h7 h6 h8 h9 h10] h11
  show ?thesis by blast
qed

subsection \<open>C6: three transient errors\<close>

text \<open>
  Claim C6: when all three attempts raise transient errors, \<open>run_hook\<close> does not raise
  but returns \<open>None\<close> after a last warning, and \<open>main\<close> returns exit code 0; the trace
  has no file write and nothing on standard output.
\<close>

theorem transient_exhaustion:
  assumes "\<not> is_user_message_source (commit_source a)"
    and "strip (fst (get_staged_diff w)) \<noteq> []"
    and "read_api_key w = Inr api_key"
    and "genai_importable w"
    and "generate_content w 1 = CallError e1" and "is_transient e1"
    and "generate_content w 2 = CallError e2" and "is_transient e2"
    and "generate_content w 3 = CallError e3" and "is_transient e3"
  shows "fst (run_hook w a) = Inr None
         \<and> main w a =
             (Inr 0,
              snd (get_staged_diff w)
              @ [RemoteCall MODEL_NAME (build_prompt (fst (get_staged_diff w))) api_key,
                 Stderr (''WARN: transient Gemini error (attempt 1/3): '' @ e1 @ ''. Retrying in 1s...''),
                 Sleep 1,
                 RemoteCall MODEL_NAME (build_prompt (fst (get_staged_diff w))) api_key,
                 Stderr (''WARN: transient Gemini error (attempt 2/3): '' @ e2 @ ''. Retrying in 2s...''),
                 Sleep 2,
                 RemoteCall MODEL_NAME (build_prompt (fst (get_staged_diff w))) api_key,
                 Stderr (''WARN: Gemini unavailable after 3 attempts: '' @ e3
                         @ ''. Skipping AI commit message generation.'')])
         \<and> filter is_write (snd (main w a)) = []
         \<and> filter is_stdout (snd (main w a)) = []"
proof -
  have run: "run_hook w a =
      (Inr None,
       snd (get_staged_diff w)
              @ [RemoteCall MODEL_NAME (build_prompt (fst (get_staged_diff w))) api_key,
                 Stderr (''WARN: transient Gemini error (attempt 1/3): '' @ e1 @ ''. Retrying in 1s...''),
                 Sleep 1,
                 RemoteCall MODEL_NAME (build_prompt (fst (get_staged_diff w))) api_key,
                 Stderr (''WARN: transient Gemini error (attempt 2/3): '' @ e2 @ ''. Retrying in 2s...''),
                 Sleep 2,
                 RemoteCall MODEL_NAME (build_prompt (fst (get_staged_diff w))) api_key,
                 Stderr (''WARN: Gemini unavailable after 3 attempts: '' @ e3
                         @ ''. Skipping AI commit message generation.'')])"
    unfolding run_hook_reached [OF assms(1-3)] loop_three_transient [OF assms(4-10)]
    by simp
  then have m: "main w a = (Inr 0, snd (run_hook w a))"
    by (simp add: main_of_run_hook)
  have "filter is_write (snd (main w a)) = []" and "filter is_stdout (snd (main w a)) = []"
    unfolding m unfolding run by (simp_all add: get_staged_diff_filters)
  with run m show ?thesis by simp
qed

theorem transient_exhaustion_witness:
  "fst (run_hook
          \<lparr>env_GEMINI_API_KEY = Some ''k'', git_diff_staged = Completed 0 (Some ''+x''),
           genai_importable = True,
           generate_content = outcomes_from
             [CallError ''503 UNAVAILABLE'', CallError ''The model is overloaded'',
              CallError ''request timed out'']\<rparr>
          \<lparr>commit_msg_filepath = ''COMMIT_EDITMSG'', commit_source = None, dry_run = False\<rparr>)
     = Inr None
   \<and> main
          \<lparr>env_GEMINI_API_KEY = Some ''k'', git_diff_staged = Completed 0 (Some ''+x''),
           genai_importable = True,
           generate_content = outcomes_from
             [CallError ''503 UNAVAILABLE'', CallError ''The model is overloaded'',
              CallError ''request timed out'']\<rparr>
          \<lparr>commit_msg_filepath = ''COMMIT_EDITMSG'', commit_source = None, dry_run = False\<rparr>
     = (Inr 0,
        [Subprocess [''git'', ''diff'', ''--staged''],
         RemoteCall MODEL_NAME (build_prompt ''+x'') ''k'',
         Stderr ''WARN: transient Gemini error (attempt 1/3): 503 UNAVAILABLE. Retrying in 1s...'',
         Sleep 1,
         RemoteCall MODEL_NAME (build_prompt ''+x'') ''k'',
         Stderr ''WARN: transient Gemini error (attempt 2/3): The model is overloaded. Retrying in 2s...'',
         Sleep 2,
         RemoteCall MODEL_NAME (build_prompt ''+x'') ''k'',
         Stderr ''WARN: Gemini unavailable after 3 attempts: request timed out. Skipping AI commit message generation.''])"
proof -
  let ?w = "\<lparr>env_GEMINI_API_KEY = Some ''k'', git_diff_staged = Completed 0 (Some ''+x''),
           genai_importable = True,
           generate_content = outcomes_from
             [CallError ''503 UNAVAILABLE'', CallError ''The model is overloaded'',
              CallError ''request timed out'']\<rparr>"
  let ?a = "\<lparr>commit_msg_filepath = ''COMMIT_EDITMSG'', commit_source = None, dry_run = False\<rparr>"
  have h1: "\<not> is_user_message_source (commit_source ?a)" by code_simp
  have h2: "strip (fst (get_staged_diff ?w)) \<noteq> []" by code_simp
  have h3: "read_api_key ?w = Inr ''k''" by code_simp
  have h4: "genai_importable ?w" by simp
  have c1: "generate_content ?w 1 = CallError ''503 UNAVAILABLE''" by code_simp
  have c2: "generate_content ?w 2 = CallError ''The model is overloaded''" by code_simp
  have c3: "generate_content ?w 3 = CallError ''request timed out''" by code_simp
  have t1: "is_transient ''503 UNAVAILABLE''" by code_simp
  have t2: "is_transient ''The model is overloaded''" by code_simp
  have t3: "is_transient ''request timed out''" by code_simp
  have d: "get_staged_diff ?w = (''+x'', [Subprocess [''git'', ''diff'', ''--staged'']])"
    by code_simp
  from transient_exhaustion [OF h1 h2 h3 h4 c1 t1 c2 t2 c3 t3]
  show ?thesis unfolding d by simp
qed

subsection \<open>C7: an error that is not transient\<close>

text \<open>
  Claim C7: when the first attempt raises an error whose text has none of the transient
  markers, \<open>run_hook\<close> raises a \<open>RuntimeError\<close> at once and \<open>main\<close> returns exit code 2:
  one remote call, no sleep, no file write.
\<close>

theorem fatal_remote_error:
  assumes "\<not> is_user_message_source (commit_source a)"
    and "strip (fst (get_staged_diff w)) \<noteq> []"
    and "read_api_key w = Inr api_key"
    and "genai_importable w"
    and "generate_content w 1 = CallError e" and "\<not> is_transient e"
  shows "fst (run_hook w a) = Inl (RuntimeError (''Gemini API call failed: '' @ e))
         \<and> main w a =
             (Inr 2,
              snd (get_staged_diff w)
              @ [RemoteCall MODEL_NAME (build_prompt (fst (get_staged_diff w))) api_key,
                 Stderr (''ERROR: Gemini API call failed: '' @ e)])
         \<and> sleeps (snd (main w a)) = []
         \<and> length (filter is_remote_call (snd (main w a))) = 1
         \<and> filter is_write (snd (main w a)) = []"
proof -
  have run: "run_hook w a =
      (Inl (RuntimeError (''Gemini API call failed: '' @ e)),
       snd (get_staged_diff w)
       @ [RemoteCall MODEL_NAME (build_prompt (fst (get_staged_diff w))) api_key])"
    unfolding run_hook_reached [OF assms(1-3)] loop_first_fatal [OF assms(4-6)]
    by simp
  then have m: "main w a =
             (Inr 2,
              snd (get_staged_diff w)
              @ [RemoteCall MODEL_NAME (build_prompt (fst (get_staged_diff w))) api_key,
                 Stderr (''ERROR: Gemini API call failed: '' @ e)])"
    by (simp add: main_of_run_hook)
  have "sleeps (snd (main w a)) = []"
    and "length (filter is_remote_call (snd (main w a))) = 1"
    and "filter is_write (snd (main w a)) = []"
    unfolding m by (simp_all add: get_staged_diff_filters sleeps_append)
  with run m show ?thesis by simp
qed

theorem fatal_remote_error_witness:
  "main
          \<lparr>env_GEMINI_API_KEY = Some ''k'', git_diff_staged = Completed 0 (Some ''+x''),
           genai_importable = True,
           generate_content = outcomes_from [CallError ''invalid api key'']\<rparr>
          \<lparr>commit_msg_filepath = ''COMMIT_EDITMSG'', commit_source = None, dry_run = False\<rparr>
     = (Inr 2,
        [Subprocess [''git'', ''diff'', ''--staged''],
         RemoteCall MODEL_NAME (build_prompt ''+x'') ''k'',
         Stderr ''ERROR: Gemini API call failed: invalid api key''])
   \<and> sleeps (snd (main
          \<lparr>env_GEMINI_API_KEY = Some ''k'', git_diff_staged = Completed 0 (Some ''+x''),
           genai_importable = True,
           generate_content = outcomes_from [CallError ''invalid api key'']\<rparr>
          \<lparr>commit_msg_filepath = ''COMMIT_EDITMSG'', commit_source = None, dry_run = False\<rparr>))
     = []"
proof -
  let ?w = "\<lparr>env_GEMINI_API_KEY = Some ''k'', git_diff_staged = Completed 0 (Some ''+x''),
           genai_importable = True,
           generate_content = outcomes_from [CallError ''invalid api key'']\<rparr>"
  let ?a = "\<lparr>commit_msg_filepath = ''COMMIT_EDITMSG'', commit_source = None, dry_run = False\<rparr>"
  have h1: "\<not> is_user_message_source (commit_source ?a)" by code_simp
  have h2: "strip (fst (get_staged_diff ?w)) \<noteq> []" by code_simp
  have h3: "read_api_key ?w = Inr ''k''" by code_simp
  have h4: "genai_importable ?w" by simp
  have c1: "generate_content ?w 1 = CallError ''invalid api key''" by code_simp
  have t1: "\<not> is_transient ''invalid api key''" by code_simp
  have d: "get_staged_diff ?w = (''+x'', [Subprocess [''git'', ''diff'', ''--staged'']])"
    by code_simp
  from fatal_remote_error [OF h1 h2 h3 h4 c1 t1]
  show ?thesis unfolding d by simp
qed

subsection \<open>C8: exit codes\<close>




subsection \<open>C9: the gate on the commit source\<close>

text \<open>
  Claim C9: with the commit source \<open>message\<close> or \<open>commit\<close>, whatever the staged diff,
  the run returns nothing and its trace is empty: nothing is printed and no file is
  written. Without a commit source the gate does not skip, and the first event of the
  run is the diff subprocess. The gate is a function of the tag alone and adds no event
  to the trace.
\<close>

theorem user_message_gate:
  "(commit_source a = Some ''message'' \<or> commit_source a = Some ''commit'' \<longrightarrow>
      run_hook w a = (Inr None, []) \<and> main w a = (Inr 0, []))
   \<and> \<not> is_user_message_source None
   \<and> (commit_source a = None \<longrightarrow>
        (\<exists>evs. snd (run_hook w a) = Subprocess [''git'', ''diff'', ''--staged''] # evs))"
proof (intro conjI impI)
  assume "commit_source a = Some ''message'' \<or> commit_source a = Some ''commit''"
  then have "is_user_message_source (commit_source a)"
  proof
    assume "commit_source a = Some ''message''"
    moreover have "is_user_message_source (Some ''message'')" by code_simp
    ultimately show ?thesis by simp
  next
    assume "commit_source a = Some ''commit''"
    moreover have "is_user_message_source (Some ''commit'')" by code_simp
    ultimately show ?thesis by simp
  qed
  then show r: "run_hook w a = (Inr None, [])" by (rule run_hook_skip)
  then show "main w a = (Inr 0, [])" by (simp add: main_of_run_hook)
next
  show "\<not> is_user_message_source None" by (simp add: is_user_message_source_def)
next
  assume "commit_source a = None"
  then have "\<not> is_user_message_source (commit_source a)"
    by (simp add: is_user_message_source_def)
  from run_hook_trace_starts [OF this, of w] get_staged_diff_events [of w]
  show "\<exists>evs. snd (run_hook w a) = Subprocess [''git'', ''diff'', ''--staged''] # evs"
    by auto
qed

theorem user_message_gate_witness:
  "main \<lparr>env_GEMINI_API_KEY = Some ''k'', git_diff_staged = Completed 0 (Some ''+x''),
          genai_importable = True,
          generate_content = outcomes_from
            [CallOk \<lparr>resp_attrs = [(''text'', PStr ''feat: x'')], resp_str = None\<rparr>]\<rparr>
        \<lparr>commit_msg_filepath = ''COMMIT_EDITMSG'', commit_source = Some ''commit'', dry_run = False\<rparr>
     = (Inr 0, [])
   \<and> hd (snd (run_hook
          \<lparr>env_GEMINI_API_KEY = Some ''k'', git_diff_staged = Completed 0 (Some ''+x''),
           genai_importable = True,
           generate_content = outcomes_from
             [CallOk \<lparr>resp_attrs = [(''text'', PStr ''feat: x'')], resp_str = None\<rparr>]\<rparr>
          \<lparr>commit_msg_filepath = ''COMMIT_EDITMSG'', commit_source = None, dry_run = False\<rparr>))
     = Subprocess [''git'', ''diff'', ''--staged'']"
proof -
  let ?w = "\<lparr>env_GEMINI_API_KEY = Some ''k'', git_diff_staged = Completed 0 (Some ''+x''),
           genai_importable = True,
           generate_content = outcomes_from
             [CallOk \<lparr>resp_attrs = [(''text'', PStr ''feat: x'')], resp_str = None\<rparr>]\<rparr>"
  let ?ac = "\<lparr>commit_msg_filepath = ''COMMIT_EDITMSG'', commit_source = Some ''commit'', dry_run = False\<rparr>"
  let ?an = "\<lparr>commit_msg_filepath = ''COMMIT_EDITMSG'', commit_source = None, dry_run = False\<rparr>"
  have h1: "commit_source ?ac = Some ''message'' \<or> commit_source ?ac = Some ''commit''" by simp
  have h2: "commit_source ?an = None" by simp
  from user_message_gate [of ?ac ?w] h1 have a: "main ?w ?ac = (Inr 0, [])" by blast
  from user_message_gate [of ?an ?w] h2
  obtain evs where "snd (run_hook ?w ?an) = Subprocess [''git'', ''diff'', ''--staged''] # evs"
    by blast
  then have b: "hd (snd (run_hook ?w ?an)) = Subprocess [''git'', ''diff'', ''--staged'']"
    by (simp only: list.sel)
  from a b show ?thesis by (rule conjI)
qed

subsection \<open>C10: the gate ignores case\<close>

text \<open>
  Claim C10: the gate skips exactly when the tag in lower case is \<open>message\<close> or
  \<open>commit\<close>, that is, when each of its characters is the letter of \<open>message\<close> (or of
  \<open>commit\<close>) at that place or the capital letter 32 below it. So \<open>MESSAGE\<close> and
  \<open>Commit\<close> skip, and \<open>template\<close>, \<open>merge\<close> and \<open>squash\<close> do not.
\<close>

theorem gate_case_insensitive:
  "(is_user_message_source (Some tag) \<longleftrightarrow> lower tag = ''message'' \<or> lower tag = ''commit'')
   \<and> (is_user_message_source (Some tag) \<longleftrightarrow>
        list_all2 (\<lambda>c d. c = d \<or> of_char c + 32 = (of_char d :: nat)) tag ''message''
        \<or> list_all2 (\<lambda>c d. c = d \<or> of_char c + 32 = (of_char d :: nat)) tag ''commit'')
   \<and> is_user_message_source (Some ''MESSAGE'')
   \<and> is_user_message_source (Some ''Commit'')
   \<and> \<not> is_user_message_source (Some ''template'')
   \<and> \<not> is_user_message_source (Some ''merge'')
   \<and> \<not> is_user_message_source (Some ''squash'')"
proof -
  have a: "is_user_message_source (Some tag) \<longleftrightarrow> lower tag = ''message'' \<or> lower tag = ''commit''"
    by (cases tag) (simp_all add: is_user_message_source_def lower_def Let_def)
  have m: "\<forall>d \<in> set ''message''. 97 \<le> (of_char d :: nat) \<and> (of_char d :: nat) \<le> 122"
    by simp
  have c: "\<forall>d \<in> set ''commit''. 97 \<le> (of_char d :: nat) \<and> (of_char d :: nat) \<le> 122"
    by simp
  have b: "is_user_message_source (Some tag) \<longleftrightarrow>
        list_all2 (\<lambda>c d. c = d \<or> of_char c + 32 = (of_char d :: nat)) tag ''message''
        \<or> list_all2 (\<lambda>c d. c = d \<or> of_char c + 32 = (of_char d :: nat)) tag ''commit''"
    unfolding a lower_eq_iff [OF m] lower_eq_iff [OF c] ..
  have e1: "is_user_message_source (Some ''MESSAGE'')" by code_simp
  have e2: "is_user_message_source (Some ''Commit'')" by code_simp
  have e3: "\<not> is_user_message_source (Some ''template'')" by code_simp
  have e4: "\<not> is_user_message_source (Some ''merge'')" by code_simp
  have e5: "\<not> is_user_message_source (Some ''squash'')" by code_simp
  from a b e1 e2 e3 e4 e5 show ?thesis by blast
qed

end
